theory Spec2Isabelle
  imports Main
begin

section \<open>Errors of the job scheduler and of the service unit\<close>

text \<open>
  The sentinel errors that \<^verbatim>\<open>job.go\<close> declares or uses (\<^verbatim>\<open>ErrUnmergeable\<close>, \<^verbatim>\<open>ErrDepFail\<close>,
  \<^verbatim>\<open>ErrUnknownType\<close>) and those the service unit takes from package \<^verbatim>\<open>unit\<close>
  (\<^verbatim>\<open>ErrNotSet\<close>, \<^verbatim>\<open>ErrNotSupported\<close>, \<^verbatim>\<open>ErrNotStarted\<close>, \<^verbatim>\<open>ErrNotParsed\<close>,
  \<^verbatim>\<open>ParseErr(field, reason)\<close> and the slice type \<^verbatim>\<open>MultiError\<close>). \<open>OpError\<close> stands
  for any other error value an operation of a unit or the definition parser returns.
\<close>

datatype error =
    ErrUnmergeable
  | ErrDepFail
  | ErrUnknownType
  | ErrNotSet
  | ErrNotSupported
  | ErrNotStarted
  | ErrNotParsed
  | ParseErr string error
  | MultiError "error list"
  | OpError string

section \<open>Jobs (\<^verbatim>\<open>system/job.go\<close>)\<close>

datatype jobState = waiting | running | success | failed

datatype jobType = start | stop | reload | restart

text \<open>
  Jobs and units are reached through pointers: an address is a key of the store, and an
  address the store does not hold is the nil pointer. A \<^verbatim>\<open>set\<close> of jobs is a Go map keyed
  by job pointers; it is kept as the list of its keys in some iteration order. Every job
  is taken to come from \<^verbatim>\<open>newJob\<close>, which allocates each of its eight sets, so no set is
  the nil map and no two fields share one map. The channel \<^verbatim>\<open>waitch\<close> is nil (\<open>None\<close>),
  open or closed.
\<close>

type_synonym addr = nat

type_synonym jobset = "addr list"

datatype chan = Open | Closed

record job =
  typ' :: jobType
  unit :: "addr option"
  wants :: jobset
  requires :: jobset
  conflicts :: jobset
  wantedBy :: jobset
  requiredBy :: jobset
  conflictedBy :: jobset
  after :: jobset
  before :: jobset
  executed :: bool
  waitch :: "chan option"
  err :: "error option"

type_synonym heap = "addr \<rightharpoonup> job"

text \<open>
  How a call ends: it returns, it panics, or it waits on a channel that nothing in the
  modelled state will ever close.
\<close>

datatype panic =
    NilDereference
  | IndexOutOfRange
  | CloseOfNilChannel
  | CloseOfClosedChannel
  | PanicError error
  | PanicString string

datatype 'a outcome = Panics panic | Blocks | Returns 'a

definition newJob :: "jobType \<Rightarrow> addr option \<Rightarrow> job" where
  "newJob t u =
     \<lparr> typ' = t, unit = u,
       wants = [], requires = [], conflicts = [],
       wantedBy = [], requiredBy = [], conflictedBy = [],
       after = [], before = [],
       executed = False, waitch = None, err = None \<rparr>"

definition IsRunning :: "job \<Rightarrow> bool" where
  "IsRunning j = (waitch j \<noteq> None)"

definition State :: "job \<Rightarrow> jobState" where
  "State j =
     (if IsRunning j then running
      else if \<not> executed j then waiting
      else if err j = None then success
      else failed)"

definition Success :: "job \<Rightarrow> bool" where
  "Success j = (State j = success)"

definition Failed :: "job \<Rightarrow> bool" where
  "Failed j = (State j = failed)"

definition isOrphan :: "job \<Rightarrow> bool" where
  "isOrphan j = (length (wantedBy j) = 0 \<and> length (requiredBy j) = 0 \<and> length (conflictedBy j) = 0)"

text \<open>
  A call of \<^verbatim>\<open>State()\<close> through the job pointer: the method only reads, so the job comes
  back as it went in. \<open>State_calls n\<close> is \<open>n\<close> calls in a row with nothing in between.
\<close>

definition State_call :: "job \<Rightarrow> jobState \<times> job" where
  "State_call j = (State j, j)"

fun State_calls :: "nat \<Rightarrow> job \<Rightarrow> jobState list \<times> job" where
  "State_calls 0 j = ([], j)"
| "State_calls (Suc n) j =
     (case State_call j of (st, j') \<Rightarrow>
        (case State_calls n j' of (sts, j'') \<Rightarrow> (st # sts, j'')))"

subsection \<open>Merging\<close>

text \<open>
  \<^verbatim>\<open>mergeTable\<close> is a map of maps; indexing a missing row gives the nil map, whose every
  lookup reports \<^verbatim>\<open>ok = false\<close>.
\<close>

definition mergeTable :: "jobType \<rightharpoonup> (jobType \<rightharpoonup> jobType)" where
  "mergeTable =
     [ start \<mapsto> [start \<mapsto> start, reload \<mapsto> reload, restart \<mapsto> restart],
       reload \<mapsto> [start \<mapsto> reload, restart \<mapsto> restart],
       restart \<mapsto> [start \<mapsto> restart, reload \<mapsto> restart] ]"

definition index2 :: "('a \<rightharpoonup> ('b \<rightharpoonup> 'c)) \<Rightarrow> 'a \<Rightarrow> 'b \<Rightarrow> 'c option" where
  "index2 m a b = (case m a of None \<Rightarrow> None | Some row \<Rightarrow> row b)"

text \<open>
  Modelled from the spec: the type \<^verbatim>\<open>set\<close> and its method \<^verbatim>\<open>Put\<close> are not among the
  sources; the relation sets are "sets, not multisets", so \<open>Put\<close> adds a key unless the
  set already holds it.
\<close>

definition Put :: "addr \<Rightarrow> jobset \<Rightarrow> jobset" where
  "Put x s = List.insert x s"

text \<open>The six pairs of the map literal that \<^verbatim>\<open>mergeWith\<close> ranges over.\<close>

datatype rel = WantedBy | RequiredBy | ConflictedBy | Wants | Requires | Conflicts

fun get_rel :: "rel \<Rightarrow> job \<Rightarrow> jobset" where
  "get_rel WantedBy j = wantedBy j"
| "get_rel RequiredBy j = requiredBy j"
| "get_rel ConflictedBy j = conflictedBy j"
| "get_rel Wants j = wants j"
| "get_rel Requires j = requires j"
| "get_rel Conflicts j = conflicts j"

fun set_rel :: "rel \<Rightarrow> jobset \<Rightarrow> job \<Rightarrow> job" where
  "set_rel WantedBy s j = j\<lparr>wantedBy := s\<rparr>"
| "set_rel RequiredBy s j = j\<lparr>requiredBy := s\<rparr>"
| "set_rel ConflictedBy s j = j\<lparr>conflictedBy := s\<rparr>"
| "set_rel Wants s j = j\<lparr>wants := s\<rparr>"
| "set_rel Requires s j = j\<lparr>requires := s\<rparr>"
| "set_rel Conflicts s j = j\<lparr>conflicts := s\<rparr>"

text \<open>
  One round of the outer loop of \<^verbatim>\<open>mergeWith\<close> (lines 213 to 215): every key of the
  other job's set is put into this job's set. Both jobs are read from the store as it is
  at that moment, so the two pointers may be the same job.
\<close>

definition mergeSet :: "addr \<Rightarrow> addr \<Rightarrow> rel \<Rightarrow> heap \<Rightarrow> heap" where
  "mergeSet pj po r h =
     (case h pj of None \<Rightarrow> h
      | Some j \<Rightarrow>
          (case h po of None \<Rightarrow> h
           | Some other \<Rightarrow> h(pj \<mapsto> set_rel r (fold Put (get_rel r other) (get_rel r j)) j)))"

text \<open>
  What the rounds \<open>rs\<close> of that loop do to this job when the other job is a different
  object (used in the proofs only).
\<close>

definition absorb :: "job \<Rightarrow> rel \<Rightarrow> job \<Rightarrow> job" where
  "absorb other r j = set_rel r (fold Put (get_rel r other) (get_rel r j)) j"

text \<open>
  \<^verbatim>\<open>mergeWith\<close>: a nil pointer panics; otherwise the call gives the returned error and
  the store it leaves. Go ranges over a map in an unspecified order: \<open>order\<close> is the
  order in which the six pairs are visited.
\<close>

definition mergeWith :: "rel list \<Rightarrow> heap \<Rightarrow> addr \<Rightarrow> addr \<Rightarrow> (error option \<times> heap) outcome" where
  "mergeWith order h pj po =
     (case h pj of None \<Rightarrow> Panics NilDereference
      | Some j \<Rightarrow>
          (case h po of None \<Rightarrow> Panics NilDereference
           | Some other \<Rightarrow>
               (case index2 mergeTable (typ' j) (typ' other) of
                  None \<Rightarrow> Returns (Some ErrUnmergeable, h)
                | Some t \<Rightarrow>
                    Returns (None, fold (mergeSet pj po) order (h(pj \<mapsto> j\<lparr>typ' := t\<rparr>))))))"

text \<open>
  The compatibility table as the specification prints it (row: existing type, column:
  incoming type, entry: merged type).
\<close>

definition compat_table :: "((jobType \<times> jobType) \<times> jobType) list" where
  "compat_table =
     [ ((start, start), start), ((start, reload), reload), ((start, restart), restart),
       ((reload, start), reload), ((reload, restart), restart),
       ((restart, start), restart), ((restart, reload), restart) ]"

subsection \<open>Running a job\<close>

text \<open>
  The type \<^verbatim>\<open>Unit\<close> of package \<^verbatim>\<open>system\<close> is not among the sources. \<^verbatim>\<open>job.go\<close> uses
  its field \<^verbatim>\<open>job\<close> (the job now running on the unit) and its methods \<^verbatim>\<open>start\<close>,
  \<^verbatim>\<open>stop\<close> and \<^verbatim>\<open>reload\<close>. The rest of a unit is the parameter \<open>'u\<close>, and the three
  methods are parameters acting on it; logging is left out.
\<close>

record 'u Unit =
  job :: "addr option"
  body :: 'u

record 'u ops =
  Unit_start :: "'u \<Rightarrow> error option \<times> 'u"
  Unit_stop :: "'u \<Rightarrow> error option \<times> 'u"
  Unit_reload :: "'u \<Rightarrow> error option \<times> 'u"

record 'u sys =
  jobs :: heap
  units :: "addr \<rightharpoonup> 'u Unit"

text \<open>
  The switch of \<^verbatim>\<open>execute\<close> on the job type, applied to the unit. A job type is one
  of the four constants, so the default case with its panic is not reached.
\<close>

fun dispatch :: "'u ops \<Rightarrow> jobType \<Rightarrow> 'u \<Rightarrow> error option \<times> 'u" where
  "dispatch p start b = Unit_start p b"
| "dispatch p stop b = Unit_stop p b"
| "dispatch p restart b =
     (case Unit_stop p b of
        (Some e, b') \<Rightarrow> (Some e, b')
      | (None, b') \<Rightarrow> Unit_start p b')"
| "dispatch p reload b = Unit_reload p b"

definition execute :: "'u ops \<Rightarrow> 'u sys \<Rightarrow> addr \<Rightarrow> (error option \<times> 'u sys) outcome" where
  "execute p s pj =
     (case jobs s pj of None \<Rightarrow> Panics NilDereference
      | Some j \<Rightarrow>
          (case unit j of None \<Rightarrow> Panics NilDereference
           | Some pu \<Rightarrow>
               (case units s pu of None \<Rightarrow> Panics NilDereference
                | Some u \<Rightarrow>
                    (case dispatch p (typ' j) (body u) of
                       (e, b') \<Rightarrow>
                         Returns (e, s\<lparr> units := (units s)(pu \<mapsto> u\<lparr>body := b'\<rparr>),
                                        jobs := (jobs s)(pj \<mapsto> j\<lparr>executed := True, err := e\<rparr>) \<rparr>)))))"

text \<open>The single assignments of \<^verbatim>\<open>Run\<close>, each on the store as it is at that line.\<close>

definition set_waitch :: "chan option \<Rightarrow> 'u sys \<Rightarrow> addr \<Rightarrow> 'u sys outcome" where
  "set_waitch c s pj =
     (case jobs s pj of None \<Rightarrow> Panics NilDereference
      | Some j \<Rightarrow> Returns (s\<lparr>jobs := (jobs s)(pj \<mapsto> j\<lparr>waitch := c\<rparr>)\<rparr>))"

definition close_waitch :: "'u sys \<Rightarrow> addr \<Rightarrow> 'u sys outcome" where
  "close_waitch s pj =
     (case jobs s pj of None \<Rightarrow> Panics NilDereference
      | Some j \<Rightarrow>
          (case waitch j of
             None \<Rightarrow> Panics CloseOfNilChannel
           | Some Closed \<Rightarrow> Panics CloseOfClosedChannel
           | Some Open \<Rightarrow> Returns (s\<lparr>jobs := (jobs s)(pj \<mapsto> j\<lparr>waitch := Some Closed\<rparr>)\<rparr>)))"

definition set_unit_job :: "addr option \<Rightarrow> 'u sys \<Rightarrow> addr \<Rightarrow> 'u sys outcome" where
  "set_unit_job v s pj =
     (case jobs s pj of None \<Rightarrow> Panics NilDereference
      | Some j \<Rightarrow>
          (case unit j of None \<Rightarrow> Panics NilDereference
           | Some pu \<Rightarrow>
               (case units s pu of None \<Rightarrow> Panics NilDereference
                | Some u \<Rightarrow> Returns (s\<lparr>units := (units s)(pu \<mapsto> u\<lparr>job := v\<rparr>)\<rparr>))))"

text \<open>
  \<^verbatim>\<open>Wait\<close>: a job that is not running returns at once; otherwise the caller receives
  from \<^verbatim>\<open>waitch\<close>, which returns at once on a closed channel and waits on an open one.
\<close>

definition Wait :: "job \<Rightarrow> bool outcome" where
  "Wait j =
     (if IsRunning j
      then (case waitch j of Some Open \<Rightarrow> Blocks | _ \<Rightarrow> Returns True)
      else Returns True)"

text \<open>
  The wait on the required jobs (lines 122 to 136), one goroutine for each, when no other
  goroutine of the program acts during the call: an open channel is closed only by the
  goroutine running that job, so here a wait on it does not end. (The run among other
  goroutines, in which such a wait does end, is \<open>Run_env\<close> below.) Every goroutine
  writes the same value into \<^verbatim>\<open>err\<close>, so their order does not show in the result.
\<close>

fun waitDeps :: "heap \<Rightarrow> jobset \<Rightarrow> error option \<Rightarrow> error option outcome" where
  "waitDeps h [] e = Returns e"
| "waitDeps h (d # ds) e =
     (case h d of None \<Rightarrow> Panics NilDereference
      | Some dep \<Rightarrow>
          (case Wait dep of
             Panics x \<Rightarrow> Panics x
           | Blocks \<Rightarrow> (case waitDeps h ds e of Panics x \<Rightarrow> Panics x | _ \<Rightarrow> Blocks)
           | Returns finished \<Rightarrow>
               waitDeps h ds (if \<not> Success dep then Some ErrDepFail else e)))"

definition requires_of :: "'u sys \<Rightarrow> addr \<Rightarrow> jobset" where
  "requires_of s pj = (case jobs s pj of None \<Rightarrow> [] | Some j \<Rightarrow> requires j)"

text \<open>
  \<^verbatim>\<open>Run\<close> when no other goroutine acts during the call, with the store after each of its
  assignments kept in order: a returning call gives the returned error and those stores,
  the last of which is the store the call leaves behind.
\<close>

definition Run_trace :: "'u ops \<Rightarrow> 'u sys \<Rightarrow> addr \<Rightarrow> (error option \<times> 'u sys list) outcome" where
  "Run_trace p s pj =
     (case set_waitch (Some Open) s pj of Panics x \<Rightarrow> Panics x | Blocks \<Rightarrow> Blocks
      | Returns s1 \<Rightarrow>
     (case set_unit_job (Some pj) s1 pj of Panics x \<Rightarrow> Panics x | Blocks \<Rightarrow> Blocks
      | Returns s2 \<Rightarrow>
     (case waitDeps (jobs s2) (requires_of s2 pj) None of Panics x \<Rightarrow> Panics x | Blocks \<Rightarrow> Blocks
      | Returns (Some e) \<Rightarrow> Returns (Some e, [s1, s2])
      | Returns None \<Rightarrow>
     (case execute p s2 pj of Panics x \<Rightarrow> Panics x | Blocks \<Rightarrow> Blocks
      | Returns (e, s3) \<Rightarrow>
     (case close_waitch s3 pj of Panics x \<Rightarrow> Panics x | Blocks \<Rightarrow> Blocks
      | Returns s4 \<Rightarrow>
     (case set_waitch None s4 pj of Panics x \<Rightarrow> Panics x | Blocks \<Rightarrow> Blocks
      | Returns s5 \<Rightarrow>
     (case set_unit_job None s5 pj of Panics x \<Rightarrow> Panics x | Blocks \<Rightarrow> Blocks
      | Returns s6 \<Rightarrow> Returns (e, [s1, s2, s3, s4, s5, s6]))))))))"

definition Run :: "'u ops \<Rightarrow> 'u sys \<Rightarrow> addr \<Rightarrow> (error option \<times> 'u sys) outcome" where
  "Run p s pj =
     (case Run_trace p s pj of Panics x \<Rightarrow> Panics x | Blocks \<Rightarrow> Blocks
      | Returns (e, tr) \<Rightarrow> Returns (e, last tr))"

text \<open>What an observer reads: the job's signal and the unit's active-job reference.\<close>

definition signal :: "'u sys \<Rightarrow> addr \<Rightarrow> chan option" where
  "signal s pj = (case jobs s pj of None \<Rightarrow> None | Some j \<Rightarrow> waitch j)"

definition active_job :: "'u sys \<Rightarrow> addr \<Rightarrow> addr option" where
  "active_job s pj =
     (case jobs s pj of None \<Rightarrow> None
      | Some j \<Rightarrow>
          (case unit j of None \<Rightarrow> None
           | Some pu \<Rightarrow> (case units s pu of None \<Rightarrow> None | Some u \<Rightarrow> job u)))"

definition State_of :: "'u sys \<Rightarrow> addr \<Rightarrow> jobState option" where
  "State_of s pj = map_option State (jobs s pj)"

section \<open>The service unit (package \<^verbatim>\<open>service\<close>)\<close>

abbreviation DEFAULT_TYPE :: string where "DEFAULT_TYPE \<equiv> ''simple''"

abbreviation dead :: string where "dead \<equiv> ''dead''"
abbreviation startPre :: string where "startPre \<equiv> ''startPre''"
abbreviation start_sub :: string where "start_sub \<equiv> ''start''"
abbreviation startPost :: string where "startPost \<equiv> ''startPost''"
abbreviation running_sub :: string where "running_sub \<equiv> ''running''"
abbreviation exited :: string where "exited \<equiv> ''exited''"
abbreviation reload_sub :: string where "reload_sub \<equiv> ''reload''"
abbreviation stop_sub :: string where "stop_sub \<equiv> ''stop''"
abbreviation stopSigabrt :: string where "stopSigabrt \<equiv> ''stopSigabrt''"
abbreviation stopSigterm :: string where "stopSigterm \<equiv> ''stopSigterm''"
abbreviation stopSigkill :: string where "stopSigkill \<equiv> ''stopSigkill''"
abbreviation stopPost :: string where "stopPost \<equiv> ''stopPost''"
abbreviation finalSigterm :: string where "finalSigterm \<equiv> ''finalSigterm''"
abbreviation finalSigkill :: string where "finalSigkill \<equiv> ''finalSigkill''"
abbreviation failed_sub :: string where "failed_sub \<equiv> ''failed''"
abbreviation autoRestart :: string where "autoRestart \<equiv> ''autoRestart''"

definition supported :: "string \<rightharpoonup> bool" where
  "supported =
     [ ''oneshot'' \<mapsto> True, ''simple'' \<mapsto> True, ''forking'' \<mapsto> False,
       ''dbus'' \<mapsto> False, ''notify'' \<mapsto> False, ''idle'' \<mapsto> False ]"

text \<open>Indexing a Go map with a missing key gives the zero value, here \<^verbatim>\<open>false\<close>.\<close>

definition Supported :: "string \<Rightarrow> bool" where
  "Supported t = (case supported t of None \<Rightarrow> False | Some b \<Rightarrow> b)"

record Service =
  Type :: string
  ExecStart :: string
  ExecStop :: string
  ExecReload :: string
  PIDFile :: string
  Restart :: string
  RemainAfterExit :: bool

text \<open>
  The embedded \<^verbatim>\<open>unit.Definition\<close> is declared in package \<^verbatim>\<open>unit\<close>, which is not among
  the sources: it is the parameter \<open>'d\<close>.
\<close>

record 'd Definition =
  unit_Definition :: 'd
  Service :: Service

text \<open>
  \<^verbatim>\<open>os.ProcessState\<close> on Unix: the process left with an exit code, or a signal ended it.
  \<^verbatim>\<open>Exited()\<close> holds in the first case, whatever the code; \<^verbatim>\<open>Success()\<close> holds for the
  exit code 0 only.
\<close>

datatype ProcessState = ExitedWith nat | KilledBy nat

fun Exited :: "ProcessState \<Rightarrow> bool" where
  "Exited (ExitedWith c) = True"
| "Exited (KilledBy sg) = False"

fun Success_proc :: "ProcessState \<Rightarrow> bool" where
  "Success_proc (ExitedWith c) = (c = 0)"
| "Success_proc (KilledBy sg) = False"

text \<open>
  \<^verbatim>\<open>exec.Cmd\<close>, with the fields the unit reads: \<^verbatim>\<open>Process\<close> is nil until the command
  is started, \<^verbatim>\<open>ProcessState\<close> is nil until \<^verbatim>\<open>Wait\<close> has returned.
\<close>

record Cmd =
  Path :: string
  Args :: "string list"
  Process :: "nat option"
  ProcessState :: "ProcessState option"

record 'd Service_Unit =
  Definition :: "'d Definition"
  Cmd :: "Cmd option"

text \<open>
  \<^verbatim>\<open>exec.Command\<close>. The library also looks a bare program name up in the search path
  and then stores the file found in \<^verbatim>\<open>Path\<close>; that lookup depends on the file system
  and is left out, so \<open>Path\<close> is the name as given.
\<close>

definition exec_Command :: "string \<Rightarrow> string list \<Rightarrow> Cmd" where
  "exec_Command name arg = \<lparr> Path = name, Args = name # arg, Process = None, ProcessState = None \<rparr>"

text \<open>
  \<^verbatim>\<open>strings.Fields\<close> on ASCII text: the fields between runs of the six ASCII white
  space characters. The Unicode spaces beyond ASCII, on which the library splits as well,
  are not recognised here.
\<close>

definition isSpace :: "char \<Rightarrow> bool" where
  "isSpace c = (c \<in> set [CHR 0x09, CHR 0x0A, CHR 0x0B, CHR 0x0C, CHR 0x0D, CHR 0x20])"

fun fields_from :: "string \<Rightarrow> string \<Rightarrow> string list" where
  "fields_from w [] = (if w = [] then [] else [w])"
| "fields_from w (c # cs) =
     (if isSpace c then (if w = [] then fields_from [] cs else w # fields_from [] cs)
      else fields_from (w @ [c]) cs)"

definition Fields :: "string \<Rightarrow> string list" where
  "Fields s = fields_from [] s"

text \<open>
  \<^verbatim>\<open>Define\<close>. The parser \<^verbatim>\<open>unit.ParseDefinition\<close> is a parameter: given the reader and
  the definition holding the defaults it returns an error or the definition it filled in.
  \<open>zero\<close> is the zero value of the embedded \<^verbatim>\<open>unit.Definition\<close>. The result is the
  returned error and the unit after the call.
\<close>

definition Definition0 :: "'d \<Rightarrow> 'd Definition" where
  "Definition0 zero =
     \<lparr> unit_Definition = zero,
       Service = \<lparr> Type = DEFAULT_TYPE, ExecStart = [], ExecStop = [], ExecReload = [],
                   PIDFile = [], Restart = [], RemainAfterExit = False \<rparr> \<rparr>"

definition check_definition :: "'d Definition \<Rightarrow> error list" where
  "check_definition def =
     (if ExecStart (Service def) = [] then [] @ [ParseErr ''ExecStart'' ErrNotSet]
      else if \<not> Supported (Type (Service def))
      then [] @ [ParseErr ''Type'' (ParseErr (Type (Service def)) ErrNotSupported)]
      else [])"

definition Define ::
  "('r \<Rightarrow> 'd Definition \<Rightarrow> error + 'd Definition) \<Rightarrow> 'd \<Rightarrow> 'd Service_Unit \<Rightarrow> 'r
     \<Rightarrow> (error option \<times> 'd Service_Unit) outcome" where
  "Define ParseDefinition zero sv r =
     (case ParseDefinition r (Definition0 zero) of
        Inl e \<Rightarrow> Returns (Some e, sv)
      | Inr def \<Rightarrow>
          (let merr = check_definition def in
           if length merr > 0 then Returns (Some (MultiError merr), sv)
           else (case Fields (ExecStart (Service def)) of
                   [] \<Rightarrow> Panics IndexOutOfRange
                 | c # arg \<Rightarrow>
                     Returns (None, sv\<lparr> Definition := def, Cmd := Some (exec_Command c arg) \<rparr>))))"

definition Sub :: "'d Service_Unit \<Rightarrow> string outcome" where
  "Sub sv =
     (case Cmd sv of
        None \<Rightarrow> Panics (PanicError ErrNotParsed)
      | Some cmd \<Rightarrow>
          (case Process cmd of
             None \<Rightarrow> Returns dead
           | Some pid \<Rightarrow>
               (case ProcessState cmd of
                  None \<Rightarrow> Returns running_sub
                | Some ps \<Rightarrow>
                    if Exited ps \<or> Success_proc ps
                    then (if RemainAfterExit (Service (Definition sv)) then Returns exited
                          else Returns dead)
                    else Returns failed_sub)))"

datatype Activation =
    unit_Inactive
  | unit_Active
  | unit_Activating
  | unit_Deactivating
  | unit_Failed
  | unit_Reloading

text \<open>The switch of \<^verbatim>\<open>Active\<close> on the sub state, case by case in the order written.\<close>

definition activation :: "string \<Rightarrow> Activation outcome" where
  "activation s =
     (if s = dead then Returns unit_Inactive
      else if s = failed_sub then Returns unit_Failed
      else if s = reload_sub then Returns unit_Reloading
      else if s = running_sub \<or> s = exited then Returns unit_Active
      else if s = start_sub \<or> s = startPre \<or> s = startPost \<or> s = autoRestart
      then Returns unit_Activating
      else if s = stop_sub \<or> s = stopSigabrt \<or> s = stopPost \<or> s = stopSigkill
              \<or> s = stopSigterm \<or> s = finalSigkill \<or> s = finalSigterm
      then Returns unit_Deactivating
      else Panics (PanicString ''Unknown service sub state''))"

definition Active :: "'d Service_Unit \<Rightarrow> Activation outcome" where
  "Active sv =
     (case Sub sv of Panics x \<Rightarrow> Panics x | Blocks \<Rightarrow> Blocks | Returns s \<Rightarrow> activation s)"

text \<open>The table of the activation state machine as the specification prints it.\<close>

definition activation_table :: "(string \<times> Activation) list" where
  "activation_table =
     [ (''dead'', unit_Inactive), (''failed'', unit_Failed), (''reload'', unit_Reloading),
       (''running'', unit_Active), (''exited'', unit_Active),
       (''start'', unit_Activating), (''startPre'', unit_Activating),
       (''startPost'', unit_Activating), (''autoRestart'', unit_Activating),
       (''stop'', unit_Deactivating), (''stopSigabrt'', unit_Deactivating),
       (''stopSigterm'', unit_Deactivating), (''stopSigkill'', unit_Deactivating),
       (''stopPost'', unit_Deactivating), (''finalSigterm'', unit_Deactivating),
       (''finalSigkill'', unit_Deactivating) ]"

section \<open>Observations and concrete inputs\<close>

text \<open>
  What an observer of a run sees after each assignment: the job's signal paired with
  the active-job reference of its unit.
\<close>

definition observe :: "addr \<Rightarrow> 'u sys \<Rightarrow> chan option \<times> addr option" where
  "observe pj s = (signal s pj, active_job s pj)"

definition observations ::
  "'u ops \<Rightarrow> 'u sys \<Rightarrow> addr \<Rightarrow> (error option \<times> (chan option \<times> addr option) list) outcome" where
  "observations p s pj =
     (case Run_trace p s pj of Panics x \<Rightarrow> Panics x | Blocks \<Rightarrow> Blocks
      | Returns (e, tr) \<Rightarrow> Returns (e, map (observe pj) tr))"

definition released_while_set :: "chan option \<times> addr option \<Rightarrow> bool" where
  "released_while_set ob = (fst ob = Some Closed \<and> snd ob \<noteq> None)"

definition cleared_while_unreleased :: "chan option \<times> addr option \<Rightarrow> bool" where
  "cleared_while_unreleased ob = (fst ob = Some Open \<and> snd ob = None)"

text \<open>Three jobs in a store, and one order of the six relation sets.\<close>

definition j1 :: job where
  "j1 = newJob start None\<lparr>wants := [3], requires := [4]\<rparr>"

definition j2 :: job where
  "j2 = newJob reload None\<lparr>wants := [3, 5], requiredBy := [6]\<rparr>"

definition j7 :: job where
  "j7 = newJob stop None\<lparr>wants := [3]\<rparr>"

definition h0 :: heap where
  "h0 = [10 \<mapsto> j1, 20 \<mapsto> j2, 30 \<mapsto> j7]"

definition order0 :: "rel list" where
  "order0 = [WantedBy, RequiredBy, ConflictedBy, Wants, Requires, Conflicts]"

text \<open>Units whose body is the log of the operations called on them.\<close>

definition ops0 :: "string list ops" where
  "ops0 = \<lparr> Unit_start = (\<lambda>b. (None, b @ [''start''])),
            Unit_stop = (\<lambda>b. (None, b @ [''stop''])),
            Unit_reload = (\<lambda>b. (None, b @ [''reload''])) \<rparr>"

text \<open>
  Job 10 requires job 20 only; job 20 has been executed and its result is an error.
\<close>

definition job_dependent :: job where
  "job_dependent = newJob start (Some 1)\<lparr>requires := [20]\<rparr>"

definition job_dep_failed :: job where
  "job_dep_failed =
     newJob start (Some 2)\<lparr>requiredBy := [10], executed := True,
                              err := Some (OpError ''exit status 1'')\<rparr>"

definition sys_depfail :: "string list sys" where
  "sys_depfail =
     \<lparr> jobs = [10 \<mapsto> job_dependent, 20 \<mapsto> job_dep_failed],
       units = [1 \<mapsto> \<lparr>job = None, body = []\<rparr>, 2 \<mapsto> \<lparr>job = None, body = [''start'']\<rparr>] \<rparr>"

text \<open>A single job with no requirement.\<close>

definition sys_single :: "string list sys" where
  "sys_single =
     \<lparr> jobs = [10 \<mapsto> newJob start (Some 1)],
       units = [1 \<mapsto> \<lparr>job = None, body = []\<rparr>] \<rparr>"

text \<open>
  A reader standing for a definition file that sets \<^verbatim>\<open>Type\<close> and \<^verbatim>\<open>ExecStart\<close>, with the
  parser that copies the two into the definition.
\<close>

definition parse_pair :: "string \<times> string \<Rightarrow> unit Definition \<Rightarrow> error + unit Definition" where
  "parse_pair r def = Inr (def\<lparr>Service := (Service def)\<lparr>Type := fst r, ExecStart := snd r\<rparr>\<rparr>)"

definition sv_fresh :: "unit Service_Unit" where
  "sv_fresh = \<lparr> Definition = Definition0 (), Cmd = None \<rparr>"

text \<open>
  A defined unit whose process has been started and has left with the exit code 1.
\<close>

definition def_false :: "unit Definition" where
  "def_false =
     \<lparr> unit_Definition = (),
       Service = \<lparr> Type = ''simple'', ExecStart = ''/bin/false'', ExecStop = [],
                   ExecReload = [], PIDFile = [], Restart = [], RemainAfterExit = False \<rparr> \<rparr>"

definition sv_exit1 :: "unit Service_Unit" where
  "sv_exit1 =
     \<lparr> Definition = def_false,
       Cmd = Some \<lparr> Path = ''/bin/false'', Args = [''/bin/false''], Process = Some 4242,
                    ProcessState = Some (ExitedWith 1) \<rparr> \<rparr>"

section \<open>A run among other goroutines\<close>

text \<open>
  \<^verbatim>\<open>Run\<close> with the other goroutines of the program: statements are taken one at a time,
  and before the \<open>k\<close>-th step of this call the others change the store by \<open>env k\<close>, an
  arbitrary function. The steps are counted in program order: the two assignments of
  lines 118 and 120, the range over \<^verbatim>\<open>requires\<close>, for each required job the return of
  its \<^verbatim>\<open>Wait\<close> and then the read of its \<^verbatim>\<open>Success\<close>, and the four steps of lines 145
  to 150. \<^verbatim>\<open>execute\<close> is taken as one step.

  For a required job that is running, \<open>env k\<close> stands for all that happens until its
  channel is closed; an environment that leaves the channel open at that step is a
  schedule in which the wait has not ended.
\<close>

type_synonym 'u env = "nat \<Rightarrow> 'u sys \<Rightarrow> 'u sys"

fun waitDeps_env ::
  "'u env \<Rightarrow> nat \<Rightarrow> 'u sys \<Rightarrow> jobset \<Rightarrow> error option \<Rightarrow> (error option \<times> 'u sys) outcome" where
  "waitDeps_env env k s [] e = Returns (e, s)"
| "waitDeps_env env k s (d # ds) e =
     (case jobs (env k s) d of None \<Rightarrow> Panics NilDereference
      | Some dep \<Rightarrow>
          (case Wait dep of
             Panics x \<Rightarrow> Panics x
           | Blocks \<Rightarrow>
               (case waitDeps_env env (k + 2) (env (k + 1) (env k s)) ds e of
                  Panics x \<Rightarrow> Panics x | _ \<Rightarrow> Blocks)
           | Returns finished \<Rightarrow>
               (case jobs (env (k + 1) (env k s)) d of None \<Rightarrow> Panics NilDereference
                | Some dep' \<Rightarrow>
                    waitDeps_env env (k + 2) (env (k + 1) (env k s)) ds
                      (if \<not> Success dep' then Some ErrDepFail else e))))"

text \<open>The assignments of \<^verbatim>\<open>Run\<close> to the job and to its unit, by name.\<close>

datatype action = Install | SetRef | Execute | Close | Reset | ClearRef

text \<open>
  A returning call gives the returned error and, in order, each assignment it made with
  the store right after it.
\<close>

definition Run_env ::
  "'u ops \<Rightarrow> 'u env \<Rightarrow> 'u sys \<Rightarrow> addr \<Rightarrow> (error option \<times> (action \<times> 'u sys) list) outcome" where
  "Run_env p env s pj =
     (case set_waitch (Some Open) (env 0 s) pj of Panics x \<Rightarrow> Panics x | Blocks \<Rightarrow> Blocks
      | Returns s1 \<Rightarrow>
     (case set_unit_job (Some pj) (env 1 s1) pj of Panics x \<Rightarrow> Panics x | Blocks \<Rightarrow> Blocks
      | Returns s2 \<Rightarrow>
     (case waitDeps_env env 3 (env 2 s2) (requires_of (env 2 s2) pj) None of
        Panics x \<Rightarrow> Panics x | Blocks \<Rightarrow> Blocks
      | Returns (Some e, sw) \<Rightarrow> Returns (Some e, [(Install, s1), (SetRef, s2)])
      | Returns (None, sw) \<Rightarrow>
     (case execute p (env (3 + 2 * length (requires_of (env 2 s2) pj)) sw) pj of
        Panics x \<Rightarrow> Panics x | Blocks \<Rightarrow> Blocks
      | Returns (e, s3) \<Rightarrow>
     (case close_waitch (env (4 + 2 * length (requires_of (env 2 s2) pj)) s3) pj of
        Panics x \<Rightarrow> Panics x | Blocks \<Rightarrow> Blocks
      | Returns s4 \<Rightarrow>
     (case set_waitch None (env (5 + 2 * length (requires_of (env 2 s2) pj)) s4) pj of
        Panics x \<Rightarrow> Panics x | Blocks \<Rightarrow> Blocks
      | Returns s5 \<Rightarrow>
     (case set_unit_job None (env (6 + 2 * length (requires_of (env 2 s2) pj)) s5) pj of
        Panics x \<Rightarrow> Panics x | Blocks \<Rightarrow> Blocks
      | Returns s6 \<Rightarrow>
          Returns (e, [(Install, s1), (SetRef, s2), (Execute, s3), (Close, s4),
                       (Reset, s5), (ClearRef, s6)]))))))))"

text \<open>What each assignment leaves in the store right after it.\<close>

fun written :: "addr \<Rightarrow> action \<times> 'u sys \<Rightarrow> bool" where
  "written pj (Install, s) = (signal s pj = Some Open)"
| "written pj (SetRef, s) = (active_job s pj = Some pj)"
| "written pj (Execute, s) = (map_option executed (jobs s pj) = Some True)"
| "written pj (Close, s) = (signal s pj = Some Closed)"
| "written pj (Reset, s) = (signal s pj = None)"
| "written pj (ClearRef, s) = (active_job s pj = None)"

text \<open>
  The other goroutines leave the signal of job \<open>pj\<close> and the active-job reference of its
  unit alone: the exclusive ownership during the run.
\<close>

definition quiet :: "'u env \<Rightarrow> addr \<Rightarrow> bool" where
  "quiet env pj = (\<forall>k s. observe pj (env k s) = observe pj s)"

text \<open>
  Job 10 requires job 20, which is running. Before the step at which the wait for it
  returns, the goroutine of job 20 finishes it without error.
\<close>

definition sys_waiting :: "string list sys" where
  "sys_waiting =
     \<lparr> jobs = [10 \<mapsto> newJob start (Some 1)\<lparr>requires := [20]\<rparr>,
               20 \<mapsto> newJob start (Some 2)\<lparr>requiredBy := [10], waitch := Some Open\<rparr>],
       units = [1 \<mapsto> \<lparr>job = None, body = []\<rparr>, 2 \<mapsto> \<lparr>job = Some 20, body = []\<rparr>] \<rparr>"

definition finish20 :: "string list sys \<Rightarrow> string list sys" where
  "finish20 s =
     (case jobs s 20 of None \<Rightarrow> s
      | Some j \<Rightarrow> s\<lparr>jobs := (jobs s)(20 \<mapsto> j\<lparr>executed := True, err := None, waitch := None\<rparr>)\<rparr>)"

definition env_finish20 :: "string list env" where
  "env_finish20 k s = (if k = 3 then finish20 s else s)"

text \<open>
  Two jobs on one unit: while job 10 is between its lines 147 and 148, the goroutine of
  job 11 runs its lines 118 and 120.
\<close>

definition sys_shared :: "string list sys" where
  "sys_shared =
     \<lparr> jobs = [10 \<mapsto> newJob start (Some 1), 11 \<mapsto> newJob reload (Some 1)],
       units = [1 \<mapsto> \<lparr>job = None, body = []\<rparr>] \<rparr>"

definition begin11 :: "string list sys \<Rightarrow> string list sys" where
  "begin11 s =
     (case set_waitch (Some Open) s 11 of
        Returns s1 \<Rightarrow> (case set_unit_job (Some 11) s1 11 of Returns s2 \<Rightarrow> s2 | _ \<Rightarrow> s)
      | _ \<Rightarrow> s)"

definition env_begin11 :: "string list env" where
  "env_begin11 k s = (if k = 5 then begin11 s else s)"

section \<open>Properties of the job state\<close>

lemma State_calls_eq: "State_calls n j = (replicate n (State j), j)"
  by (induction n) (simp_all add: State_call_def)

text \<open>
  Claim C1. \<^verbatim>\<open>State()\<close> returns one of waiting, running, success and failed: running
  exactly when the job holds a completion signal (\<^verbatim>\<open>waitch\<close> is not nil); otherwise
  waiting exactly when the job has not been executed; otherwise success exactly when the
  stored result is nil and failed exactly when it is an error. Once the state is success
  or failed, any number of further calls, with nothing else done to the job, return that
  same state and leave the job as it is.
\<close>

theorem State_derivation:
  "State j \<in> {waiting, running, success, failed}
   \<and> (IsRunning j \<longleftrightarrow> waitch j \<noteq> None)
   \<and> (State j = running \<longleftrightarrow> IsRunning j)
   \<and> (State j = waiting \<longleftrightarrow> \<not> IsRunning j \<and> \<not> executed j)
   \<and> (State j = success \<longleftrightarrow> \<not> IsRunning j \<and> executed j \<and> err j = None)
   \<and> (State j = failed \<longleftrightarrow> \<not> IsRunning j \<and> executed j \<and> err j \<noteq> None)
   \<and> (State j \<in> {success, failed} \<longrightarrow> State_calls n j = (replicate n (State j), j))"
  by (cases "State j") (auto simp: State_def IsRunning_def State_calls_eq split: if_splits)

theorem State_derivation_witness:
  "State job_dep_failed \<in> {success, failed}
   \<and> State job_dep_failed = failed
   \<and> State_calls 3 job_dep_failed = ([failed, failed, failed], job_dep_failed)"
  using State_derivation [of job_dep_failed 3]
  by (simp add: State_def IsRunning_def job_dep_failed_def newJob_def numeral_3_eq_3)

section \<open>Properties of merging\<close>

lemma index2_mergeTable:
  "index2 mergeTable a b = map_of compat_table (a, b)"
  by (cases a; cases b) (simp_all add: index2_def mergeTable_def compat_table_def)

lemma index2_same: "index2 mergeTable a a = Some t \<Longrightarrow> t = a"
  by (cases a) (simp_all add: index2_def mergeTable_def)

lemma fold_Put_set: "set (fold Put xs s) = set xs \<union> set s"
  by (induction xs arbitrary: s) (auto simp: Put_def)

lemma fold_Put_distinct: "distinct s \<Longrightarrow> distinct (fold Put xs s)"
  by (induction xs arbitrary: s) (auto simp: Put_def)

lemma fold_Put_absorb: "set xs \<subseteq> set s \<Longrightarrow> fold Put xs s = s"
  by (induction xs arbitrary: s) (auto simp: Put_def)

lemma set_rel_get_rel: "set_rel r (get_rel r j) j = j"
  by (cases r) simp_all

lemma get_rel_set_rel: "get_rel r (set_rel r' s j) = (if r = r' then s else get_rel r j)"
  by (cases r; cases r') simp_all

lemma mergeSet_frame: "a \<noteq> pj \<Longrightarrow> mergeSet pj po r h a = h a"
  by (simp add: mergeSet_def split: option.splits)

lemma fold_mergeSet_frame: "a \<noteq> pj \<Longrightarrow> fold (mergeSet pj po) rs h a = h a"
  by (induction rs arbitrary: h) (simp_all add: mergeSet_frame)

lemma mergeSet_alias: "mergeSet p p r h = h"
  by (auto simp: mergeSet_def fold_Put_absorb set_rel_get_rel split: option.splits)

lemma fold_mergeSet_alias: "fold (mergeSet p p) rs h = h"
  by (induction rs arbitrary: h) (simp_all add: mergeSet_alias)

lemma fold_mergeSet_distinct:
  "pj \<noteq> po \<Longrightarrow> h pj = Some j \<Longrightarrow> h po = Some other \<Longrightarrow>
   fold (mergeSet pj po) rs h = h(pj \<mapsto> fold (absorb other) rs j)"
proof (induction rs arbitrary: h j)
  case Nil
  then show ?case by (simp add: fun_upd_idem)
next
  case (Cons r rs)
  let ?h = "mergeSet pj po r h"
  have step: "?h = h(pj \<mapsto> absorb other r j)"
    using Cons.prems by (simp add: mergeSet_def absorb_def)
  have "fold (mergeSet pj po) rs ?h = ?h(pj \<mapsto> fold (absorb other) rs (absorb other r j))"
    using Cons.prems by (intro Cons.IH) (simp_all add: step)
  then show ?case by (simp add: step)
qed

lemma absorb_set:
  "set (get_rel r (fold (absorb other) rs j)) =
     (if r \<in> set rs then set (get_rel r j) \<union> set (get_rel r other) else set (get_rel r j))"
  by (induction rs arbitrary: j) (auto simp: absorb_def get_rel_set_rel fold_Put_set)

lemma absorb_distinct:
  "distinct (get_rel r j) \<Longrightarrow> distinct (get_rel r (fold (absorb other) rs j))"
proof (induction rs arbitrary: j)
  case Nil
  then show ?case by simp
next
  case (Cons a rs)
  have "distinct (get_rel r (absorb other a j))"
    using Cons.prems by (auto simp: absorb_def get_rel_set_rel fold_Put_distinct)
  then show ?case by (simp add: Cons.IH)
qed

lemma set_rel_frame:
  "typ' (set_rel r s j) = typ' j" "unit (set_rel r s j) = unit j"
  "after (set_rel r s j) = after j" "before (set_rel r s j) = before j"
  "executed (set_rel r s j) = executed j" "waitch (set_rel r s j) = waitch j"
  "err (set_rel r s j) = err j"
  by (cases r; simp)+

lemma absorb_frame:
  "typ' (fold (absorb other) rs j) = typ' j \<and> unit (fold (absorb other) rs j) = unit j
   \<and> after (fold (absorb other) rs j) = after j \<and> before (fold (absorb other) rs j) = before j
   \<and> executed (fold (absorb other) rs j) = executed j \<and> waitch (fold (absorb other) rs j) = waitch j
   \<and> err (fold (absorb other) rs j) = err j"
  by (induction rs arbitrary: j) (simp_all add: absorb_def set_rel_frame)


lemma get_rel_typ: "get_rel r (j\<lparr>typ' := t\<rparr>) = get_rel r j"
  by (cases r) simp_all

lemma in_compat_table: "(p \<in> fst ` set compat_table) = (map_of compat_table p \<noteq> None)"
  by (simp add: map_of_eq_None_iff)

lemma mergeWith_fail:
  assumes "h pj = Some j" "h po = Some other" "index2 mergeTable (typ' j) (typ' other) = None"
  shows "mergeWith order h pj po = Returns (Some ErrUnmergeable, h)"
  using assms by (simp add: mergeWith_def)

lemma mergeWith_ok:
  assumes "h pj = Some j" "h po = Some other" "index2 mergeTable (typ' j) (typ' other) = Some t"
  shows "mergeWith order h pj po =
           Returns (None, h(pj \<mapsto> (if pj = po then j else fold (absorb other) order (j\<lparr>typ' := t\<rparr>))))"
proof (cases "pj = po")
  case True
  with assms have "j = other" by simp
  with assms have "t = typ' j" using index2_same by blast
  then have "h(pj \<mapsto> j\<lparr>typ' := t\<rparr>) = h" and "h(pj \<mapsto> j) = h"
    using assms by (simp_all add: fun_upd_idem)
  then show ?thesis using assms True by (simp add: mergeWith_def fold_mergeSet_alias)
next
  case False
  have "fold (mergeSet pj po) order (h(pj \<mapsto> j\<lparr>typ' := t\<rparr>)) =
          (h(pj \<mapsto> j\<lparr>typ' := t\<rparr>))(pj \<mapsto> fold (absorb other) order (j\<lparr>typ' := t\<rparr>))"
    using False assms by (intro fold_mergeSet_distinct) simp_all
  then show ?thesis using assms False by (simp add: mergeWith_def)
qed

text \<open>
  Claim C2. The lookup in \<^verbatim>\<open>mergeTable\<close> is the lookup in the compatibility table. For
  two jobs in the store, \<^verbatim>\<open>mergeWith\<close> returns without error exactly when the pair (type
  of the existing job, type of the incoming job) has an entry in that table; for every other pair, so for every pair with stop, for reload with
  reload and for restart with restart, it returns \<^verbatim>\<open>ErrUnmergeable\<close>.
\<close>

theorem mergeWith_compat:
  assumes "h pj = Some j" and "h po = Some other"
  shows "index2 mergeTable (typ' j) (typ' other) = map_of compat_table (typ' j, typ' other)
         \<and> ((\<exists>h'. mergeWith order h pj po = Returns (None, h')) \<longleftrightarrow>
            (typ' j, typ' other) \<in> fst ` set compat_table)
         \<and> ((typ' j, typ' other) \<notin> fst ` set compat_table \<longrightarrow>
              mergeWith order h pj po = Returns (Some ErrUnmergeable, h))
         \<and> (typ' j = stop \<or> typ' other = stop \<or> (typ' j = reload \<and> typ' other = reload)
              \<or> (typ' j = restart \<and> typ' other = restart) \<longrightarrow>
              mergeWith order h pj po = Returns (Some ErrUnmergeable, h))"
proof -
  let ?p = "(typ' j, typ' other)"
  have tab: "index2 mergeTable (typ' j) (typ' other) = map_of compat_table ?p"
    by (rule index2_mergeTable)
  have bad: "typ' j = stop \<or> typ' other = stop \<or> (typ' j = reload \<and> typ' other = reload)
              \<or> (typ' j = restart \<and> typ' other = restart) \<Longrightarrow> map_of compat_table ?p = None"
    by (cases "typ' j"; cases "typ' other") (simp_all add: compat_table_def)
  show ?thesis
  proof (cases "map_of compat_table ?p")
    case None
    then have "mergeWith order h pj po = Returns (Some ErrUnmergeable, h)"
      using assms tab by (simp add: mergeWith_fail)
    then show ?thesis using None tab by (simp add: in_compat_table)
  next
    case (Some t)
    then have "\<exists>h'. mergeWith order h pj po = Returns (None, h')"
      using assms tab mergeWith_ok [of h pj j po other t order] by simp
    then show ?thesis using Some bad tab by (auto simp: in_compat_table)
  qed
qed

lemma h0_at: "h0 10 = Some j1" "h0 20 = Some j2" "h0 30 = Some j7"
  by (simp_all add: h0_def)

theorem mergeWith_compat_witness:
  "(\<exists>h'. mergeWith order0 h0 10 20 = Returns (None, h'))
   \<and> mergeWith order0 h0 10 30 = Returns (Some ErrUnmergeable, h0)
   \<and> mergeWith order0 h0 20 20 = Returns (Some ErrUnmergeable, h0)"
  using mergeWith_compat [of h0 10 j1 20 j2 order0, OF h0_at(1) h0_at(2)]
        mergeWith_compat [of h0 10 j1 30 j7 order0, OF h0_at(1) h0_at(3)]
        mergeWith_compat [of h0 20 j2 20 j2 order0, OF h0_at(2) h0_at(2)]
  by (simp add: j1_def j2_def j7_def newJob_def compat_table_def)

text \<open>
  Claim C3. When the pair of types is in the table with merged type \<open>t\<close>, \<^verbatim>\<open>mergeWith\<close>
  returns no error, the existing job has type \<open>t\<close> afterwards, and each of its six
  relation sets holds exactly the keys it held before together with those of the incoming
  job's set, with no key twice if it held none twice before. When the pair is not in the
  table, the call returns \<^verbatim>\<open>ErrUnmergeable\<close> and the store, hence both jobs, is as before.
\<close>

theorem mergeWith_union:
  assumes "h pj = Some j" and "h po = Some other" and "set order = UNIV"
  shows "(\<forall>t. map_of compat_table (typ' j, typ' other) = Some t \<longrightarrow>
            (\<exists>j'. mergeWith order h pj po = Returns (None, h(pj \<mapsto> j')) \<and> typ' j' = t
               \<and> (\<forall>r. set (get_rel r j') = set (get_rel r j) \<union> set (get_rel r other)
                     \<and> (distinct (get_rel r j) \<longrightarrow> distinct (get_rel r j')))))
         \<and> (map_of compat_table (typ' j, typ' other) = None \<longrightarrow>
              mergeWith order h pj po = Returns (Some ErrUnmergeable, h))"
proof (intro conjI allI impI)
  fix t
  assume "map_of compat_table (typ' j, typ' other) = Some t"
  then have tab: "index2 mergeTable (typ' j) (typ' other) = Some t"
    by (simp add: index2_mergeTable)
  let ?j' = "if pj = po then j else fold (absorb other) order (j\<lparr>typ' := t\<rparr>)"
  have res: "mergeWith order h pj po = Returns (None, h(pj \<mapsto> ?j'))"
    using assms(1,2) tab by (rule mergeWith_ok)
  have ty: "typ' ?j' = t"
  proof (cases "pj = po")
    case True
    with assms have "j = other" by simp
    with tab have "t = typ' j" using index2_same by blast
    with True show ?thesis by simp
  next
    case False
    then show ?thesis by (simp add: absorb_frame)
  qed
  have sets: "\<forall>r. set (get_rel r ?j') = set (get_rel r j) \<union> set (get_rel r other)
                     \<and> (distinct (get_rel r j) \<longrightarrow> distinct (get_rel r ?j'))"
  proof (cases "pj = po")
    case True
    with assms have "j = other" by simp
    with True show ?thesis by simp
  next
    case False
    have "r \<in> set order" for r using assms(3) by simp
    then show ?thesis using False
      by (simp add: absorb_set absorb_distinct get_rel_typ)
  qed
  show "\<exists>j'. mergeWith order h pj po = Returns (None, h(pj \<mapsto> j')) \<and> typ' j' = t
               \<and> (\<forall>r. set (get_rel r j') = set (get_rel r j) \<union> set (get_rel r other)
                     \<and> (distinct (get_rel r j) \<longrightarrow> distinct (get_rel r j')))"
    using res ty sets by blast
next
  assume "map_of compat_table (typ' j, typ' other) = None"
  then show "mergeWith order h pj po = Returns (Some ErrUnmergeable, h)"
    using assms(1,2) by (simp add: mergeWith_fail index2_mergeTable)
qed

theorem mergeWith_union_witness:
  "set order0 = UNIV
   \<and> (\<exists>j'. mergeWith order0 h0 10 20 = Returns (None, h0(10 \<mapsto> j')) \<and> typ' j' = reload
         \<and> set (wants j') = {3, 5} \<and> set (requires j') = {4} \<and> set (requiredBy j') = {6}
         \<and> distinct (wants j'))
   \<and> mergeWith order0 h0 10 30 = Returns (Some ErrUnmergeable, h0)"
proof -
  have u: "set order0 = UNIV"
  proof -
    have "r \<in> set order0" for r by (cases r) (simp_all add: order0_def)
    then show ?thesis by blast
  qed
  have ok: "map_of compat_table (typ' j1, typ' j2) = Some reload"
    by (simp add: compat_table_def j1_def j2_def newJob_def)
  have bad: "map_of compat_table (typ' j1, typ' j7) = None"
    by (simp add: compat_table_def j1_def j7_def newJob_def)
  from mergeWith_union [of h0 10 j1 20 j2 order0, OF h0_at(1) h0_at(2) u] ok
  obtain j' where m: "mergeWith order0 h0 10 20 = Returns (None, h0(10 \<mapsto> j'))"
    and ty: "typ' j' = reload"
    and sets: "\<forall>r. set (get_rel r j') = set (get_rel r j1) \<union> set (get_rel r j2)
                 \<and> (distinct (get_rel r j1) \<longrightarrow> distinct (get_rel r j'))"
    by blast
  have "set (wants j') = {3, 5}"
    using sets [rule_format, of Wants] by (auto simp: j1_def j2_def newJob_def)
  moreover have "set (requires j') = {4}"
    using sets [rule_format, of Requires] by (auto simp: j1_def j2_def newJob_def)
  moreover have "set (requiredBy j') = {6}"
    using sets [rule_format, of RequiredBy] by (auto simp: j1_def j2_def newJob_def)
  moreover have "distinct (wants j')"
    using sets [rule_format, of Wants] by (simp add: j1_def newJob_def)
  moreover have "mergeWith order0 h0 10 30 = Returns (Some ErrUnmergeable, h0)"
    using mergeWith_union [of h0 10 j1 30 j7 order0, OF h0_at(1) h0_at(3) u] bad by blast
  ultimately show ?thesis using u m ty by blast
qed

text \<open>
  Claim C10. Every returning call of \<^verbatim>\<open>mergeWith\<close> leaves the incoming job as it was,
  also when both pointers are the same job; it leaves every job other than the existing
  one as it was; and in the existing job the sets \<^verbatim>\<open>after\<close> and \<^verbatim>\<open>before\<close>, the unit
  reference, the executed flag, the stored result and the completion signal are unchanged.
\<close>

theorem mergeWith_frame:
  assumes "h pj = Some j" and "h po = Some other"
    and "mergeWith order h pj po = Returns (e, h')"
  shows "h' po = Some other
         \<and> (\<forall>a. a \<noteq> pj \<longrightarrow> h' a = h a)
         \<and> (\<exists>j'. h' pj = Some j' \<and> after j' = after j \<and> before j' = before j
               \<and> unit j' = unit j \<and> executed j' = executed j \<and> err j' = err j
               \<and> waitch j' = waitch j)"
proof (cases "index2 mergeTable (typ' j) (typ' other)")
  case None
  then have "h' = h" using assms by (simp add: mergeWith_fail)
  then show ?thesis using assms by simp
next
  case (Some t)
  let ?j' = "if pj = po then j else fold (absorb other) order (j\<lparr>typ' := t\<rparr>)"
  have "h' = h(pj \<mapsto> ?j')"
    using assms mergeWith_ok [OF assms(1,2) Some, of order] by simp
  then show ?thesis using assms by (auto simp: absorb_frame)
qed

theorem mergeWith_frame_witness:
  "\<exists>e h'. mergeWith order0 h0 10 20 = Returns (e, h')
     \<and> h' 20 = Some j2 \<and> h' 30 = h0 30
     \<and> (\<exists>j'. h' 10 = Some j' \<and> after j' = after j1 \<and> before j' = before j1
           \<and> unit j' = unit j1 \<and> executed j' = executed j1 \<and> err j' = err j1
           \<and> waitch j' = waitch j1)"
proof -
  have "index2 mergeTable (typ' j1) (typ' j2) = Some reload"
    by (simp add: index2_def mergeTable_def j1_def j2_def newJob_def)
  then obtain h' where m: "mergeWith order0 h0 10 20 = Returns (None, h')"
    using mergeWith_ok [of h0 10 j1 20 j2 reload order0, OF h0_at(1) h0_at(2)] by blast
  have "(30::nat) \<noteq> 10" by simp
  then show ?thesis
    using mergeWith_frame [of h0 10 j1 20 j2 order0 None h', OF h0_at(1) h0_at(2) m] m by blast
qed

section \<open>Properties of running a job\<close>

lemma set_waitch_obs:
  "set_waitch c s pj = Returns s' \<Longrightarrow> signal s' pj = c \<and> active_job s' pj = active_job s pj"
  by (auto simp: set_waitch_def signal_def active_job_def split: option.splits)

lemma set_unit_job_obs:
  "set_unit_job v s pj = Returns s' \<Longrightarrow> signal s' pj = signal s pj \<and> active_job s' pj = v"
  by (auto simp: set_unit_job_def signal_def active_job_def split: option.splits)

lemma execute_obs:
  "execute p s pj = Returns (e, s') \<Longrightarrow>
     signal s' pj = signal s pj \<and> active_job s' pj = active_job s pj"
  by (auto simp: execute_def signal_def active_job_def split: option.splits prod.splits)

lemma close_waitch_obs:
  "close_waitch s pj = Returns s' \<Longrightarrow>
     signal s' pj = Some Closed \<and> active_job s' pj = active_job s pj"
  by (auto simp: close_waitch_def signal_def active_job_def split: option.splits chan.splits)

lemma waitDeps_result:
  "waitDeps h ds e0 = Returns r \<Longrightarrow> r = e0 \<or> r = Some ErrDepFail"
proof (induction ds arbitrary: e0)
  case Nil
  then show ?case by simp
next
  case (Cons d ds)
  then show ?case
    by (fastforce split: option.splits if_splits outcome.splits)
qed

text \<open>The two ways in which \<^verbatim>\<open>Run\<close> returns: at line 141, or at line 152.\<close>

lemma Run_trace_Returns:
  assumes "Run_trace p s pj = Returns (e, tr)"
  obtains (aborted) s1 s2 where
      "set_waitch (Some Open) s pj = Returns s1" "set_unit_job (Some pj) s1 pj = Returns s2"
      "waitDeps (jobs s2) (requires_of s2 pj) None = Returns e" "e \<noteq> None" "tr = [s1, s2]"
  | (completed) s1 s2 s3 s4 s5 s6 where
      "set_waitch (Some Open) s pj = Returns s1" "set_unit_job (Some pj) s1 pj = Returns s2"
      "waitDeps (jobs s2) (requires_of s2 pj) None = Returns None"
      "execute p s2 pj = Returns (e, s3)" "close_waitch s3 pj = Returns s4"
      "set_waitch None s4 pj = Returns s5" "set_unit_job None s5 pj = Returns s6"
      "tr = [s1, s2, s3, s4, s5, s6]"
  using assms unfolding Run_trace_def
  by (auto split: outcome.splits option.splits prod.splits)

lemma observations_Returns:
  assumes "observations p s pj = Returns (e, obs)"
  shows "(e = Some ErrDepFail
            \<and> obs = [(Some Open, active_job s pj), (Some Open, Some pj)])
         \<or> obs = [(Some Open, active_job s pj), (Some Open, Some pj), (Some Open, Some pj),
                  (Some Closed, Some pj), (None, Some pj), (None, None)]"
proof -
  from assms obtain tr where tr: "Run_trace p s pj = Returns (e, tr)"
    and obs: "obs = map (observe pj) tr"
    by (auto simp: observations_def split: outcome.splits)
  from tr show ?thesis
  proof (cases rule: Run_trace_Returns)
    case (aborted s1 s2)
    have "e = Some ErrDepFail"
      using waitDeps_result [OF aborted(3)] aborted(4) by simp
    moreover have "observe pj s1 = (Some Open, active_job s pj)"
      using set_waitch_obs [OF aborted(1)] by (simp add: observe_def)
    moreover have "observe pj s2 = (Some Open, Some pj)"
      using set_waitch_obs [OF aborted(1)] set_unit_job_obs [OF aborted(2)]
      by (simp add: observe_def)
    ultimately show ?thesis using obs aborted(5) by simp
  next
    case (completed s1 s2 s3 s4 s5 s6)
    have o1: "observe pj s1 = (Some Open, active_job s pj)"
      using set_waitch_obs [OF completed(1)] by (simp add: observe_def)
    have o2: "observe pj s2 = (Some Open, Some pj)"
      using set_waitch_obs [OF completed(1)] set_unit_job_obs [OF completed(2)]
      by (simp add: observe_def)
    have o3: "observe pj s3 = (Some Open, Some pj)"
      using o2 execute_obs [OF completed(4)] by (simp add: observe_def)
    have o4: "observe pj s4 = (Some Closed, Some pj)"
      using o3 close_waitch_obs [OF completed(5)] by (simp add: observe_def)
    have o5: "observe pj s5 = (None, Some pj)"
      using o4 set_waitch_obs [OF completed(6)] by (simp add: observe_def)
    have o6: "observe pj s6 = (None, None)"
      using o5 set_unit_job_obs [OF completed(7)] by (simp add: observe_def)
    show ?thesis using obs completed(8) o1 o2 o3 o4 o5 o6 by simp
  qed
qed

text \<open>The run among other goroutines: its result when the others do nothing.\<close>

lemma waitDeps_env_idle:
  "waitDeps_env (\<lambda>k s. s) k s ds e =
     (case waitDeps (jobs s) ds e of
        Panics x \<Rightarrow> Panics x | Blocks \<Rightarrow> Blocks | Returns r \<Rightarrow> Returns (r, s))"
proof (induction ds arbitrary: k e)
  case Nil
  show ?case by simp
next
  case (Cons d ds)
  show ?case
  proof (cases "jobs s d")
    case None
    then show ?thesis by simp
  next
    case (Some dep)
    show ?thesis
    proof (cases "Wait dep")
      case (Panics x)
      then show ?thesis using Some by simp
    next
      case Blocks
      then show ?thesis using Some
        by (cases "waitDeps (jobs s) ds e") (simp_all add: Cons.IH)
    next
      case (Returns finished)
      then show ?thesis using Some by (simp add: Cons.IH)
    qed
  qed
qed

lemma Run_env_idle:
  "Run_env p (\<lambda>k s. s) s pj =
     (case Run_trace p s pj of
        Panics x \<Rightarrow> Panics x
      | Blocks \<Rightarrow> Blocks
      | Returns (e, tr) \<Rightarrow>
          Returns (e, zip (take (length tr) [Install, SetRef, Execute, Close, Reset, ClearRef]) tr))"
  by (simp add: Run_env_def Run_trace_def waitDeps_env_idle
      split: outcome.splits option.splits prod.splits)

lemma waitDeps_env_result:
  "waitDeps_env env k s ds e0 = Returns (r, s') \<Longrightarrow> r = e0 \<or> r = Some ErrDepFail"
proof (induction ds arbitrary: k s e0)
  case Nil
  then show ?case by simp
next
  case (Cons d ds)
  then show ?case
    by (fastforce split: option.splits if_splits outcome.splits)
qed

lemma waitDeps_env_quiet:
  "quiet env pj \<Longrightarrow> waitDeps_env env k s ds e0 = Returns (r, s') \<Longrightarrow>
     observe pj s' = observe pj s"
proof (induction ds arbitrary: k s e0)
  case Nil
  then show ?case by simp
next
  case (Cons d ds)
  from Cons.prems(2) obtain e1 where
    rest: "waitDeps_env env (k + 2) (env (k + 1) (env k s)) ds e1 = Returns (r, s')"
    by (auto split: option.splits if_splits outcome.splits)
  have "observe pj s' = observe pj (env (k + 1) (env k s))"
    using Cons.IH [OF Cons.prems(1) rest] .
  then show ?case using Cons.prems(1) by (simp add: quiet_def)
qed

lemma execute_executed:
  "execute p s pj = Returns (e, s') \<Longrightarrow> map_option executed (jobs s' pj) = Some True"
  by (auto simp: execute_def split: option.splits prod.splits)

text \<open>The two ways in which the run returns, with the store each step started from.\<close>

lemma Run_env_Returns:
  assumes "Run_env p env s pj = Returns (e, tr)"
  obtains (aborted) s1 s2 sw where
      "set_waitch (Some Open) (env 0 s) pj = Returns s1"
      "set_unit_job (Some pj) (env 1 s1) pj = Returns s2"
      "waitDeps_env env 3 (env 2 s2) (requires_of (env 2 s2) pj) None = Returns (e, sw)"
      "e \<noteq> None" "tr = [(Install, s1), (SetRef, s2)]"
  | (completed) s1 s2 sw n s3 s4 s5 s6 where
      "set_waitch (Some Open) (env 0 s) pj = Returns s1"
      "set_unit_job (Some pj) (env 1 s1) pj = Returns s2"
      "waitDeps_env env 3 (env 2 s2) (requires_of (env 2 s2) pj) None = Returns (None, sw)"
      "execute p (env (3 + n) sw) pj = Returns (e, s3)"
      "close_waitch (env (4 + n) s3) pj = Returns s4"
      "set_waitch None (env (5 + n) s4) pj = Returns s5"
      "set_unit_job None (env (6 + n) s5) pj = Returns s6"
      "tr = [(Install, s1), (SetRef, s2), (Execute, s3), (Close, s4), (Reset, s5), (ClearRef, s6)]"
  using assms unfolding Run_env_def
  by (auto split: outcome.splits option.splits prod.splits)

lemma Run_env_order:
  assumes "Run_env p env s pj = Returns (e, tr)"
  shows "((e = Some ErrDepFail \<and> map fst tr = [Install, SetRef])
          \<or> map fst tr = [Install, SetRef, Execute, Close, Reset, ClearRef])
         \<and> list_all (written pj) tr"
  using assms
proof (cases rule: Run_env_Returns)
  case (aborted s1 s2 sw)
  have "e = Some ErrDepFail"
    using waitDeps_env_result [OF aborted(3)] aborted(4) by simp
  moreover have "written pj (Install, s1)"
    using set_waitch_obs [OF aborted(1)] by simp
  moreover have "written pj (SetRef, s2)"
    using set_unit_job_obs [OF aborted(2)] by simp
  ultimately show ?thesis using aborted(5) by simp
next
  case (completed s1 s2 sw n s3 s4 s5 s6)
  have "written pj (Install, s1)"
    using set_waitch_obs [OF completed(1)] by simp
  moreover have "written pj (SetRef, s2)"
    using set_unit_job_obs [OF completed(2)] by simp
  moreover have "written pj (Execute, s3)"
    using execute_executed [OF completed(4)] by simp
  moreover have "written pj (Close, s4)"
    using close_waitch_obs [OF completed(5)] by simp
  moreover have "written pj (Reset, s5)"
    using set_waitch_obs [OF completed(6)] by simp
  moreover have "written pj (ClearRef, s6)"
    using set_unit_job_obs [OF completed(7)] by simp
  ultimately show ?thesis using completed(8) by simp
qed

lemma Run_env_quiet:
  assumes "Run_env p env s pj = Returns (e, tr)" and "quiet env pj"
  shows "(e = Some ErrDepFail
            \<and> map (observe pj) (map snd tr) = [(Some Open, active_job s pj), (Some Open, Some pj)])
         \<or> map (observe pj) (map snd tr) =
             [(Some Open, active_job s pj), (Some Open, Some pj), (Some Open, Some pj),
              (Some Closed, Some pj), (None, Some pj), (None, None)]"
  using assms(1)
proof (cases rule: Run_env_Returns)
  case (aborted s1 s2 sw)
  have q: "observe pj (env k t) = observe pj t" for k t
    using assms(2) by (simp add: quiet_def)
  have "e = Some ErrDepFail"
    using waitDeps_env_result [OF aborted(3)] aborted(4) by simp
  moreover have o1: "observe pj s1 = (Some Open, active_job s pj)"
    using set_waitch_obs [OF aborted(1)] q [of 0 s] by (simp add: observe_def)
  moreover have "observe pj s2 = (Some Open, Some pj)"
    using o1 set_unit_job_obs [OF aborted(2)] q [of 1 s1] by (simp add: observe_def)
  ultimately show ?thesis using aborted(5) by simp
next
  case (completed s1 s2 sw n s3 s4 s5 s6)
  have q: "observe pj (env k t) = observe pj t" for k t
    using assms(2) by (simp add: quiet_def)
  have o1: "observe pj s1 = (Some Open, active_job s pj)"
    using set_waitch_obs [OF completed(1)] q [of 0 s] by (simp add: observe_def)
  have o2: "observe pj s2 = (Some Open, Some pj)"
    using o1 set_unit_job_obs [OF completed(2)] q [of 1 s1] by (simp add: observe_def)
  have ow: "observe pj sw = (Some Open, Some pj)"
    using o2 waitDeps_env_quiet [OF assms(2) completed(3)] q [of 2 s2] by simp
  have o3: "observe pj s3 = (Some Open, Some pj)"
    using ow execute_obs [OF completed(4)] q [of "3 + n" sw] by (simp add: observe_def)
  have o4: "observe pj s4 = (Some Closed, Some pj)"
    using o3 close_waitch_obs [OF completed(5)] q [of "4 + n" s3] by (simp add: observe_def)
  have o5: "observe pj s5 = (None, Some pj)"
    using o4 set_waitch_obs [OF completed(6)] q [of "5 + n" s4] by (simp add: observe_def)
  have o6: "observe pj s6 = (None, None)"
    using o5 set_unit_job_obs [OF completed(7)] q [of "6 + n" s5] by (simp add: observe_def)
  show ?thesis using completed(8) o1 o2 o3 o4 o5 o6 by simp
qed

text \<open>
  Claim C8, as stated: in a run that reaches its end the active-job reference is cleared
  before the signal is released, so the signal is never seen released while the
  reference is still set, and an observer never sees a cleared reference paired with an
  unreleased signal. The run of a single job without requirements, alone in the program,
  fails both: after the fourth assignment the channel is closed and the unit still refers
  to the job, and after the first assignment the signal is open while the unit refers to
  no job yet.
\<close>

theorem Run_release_order_counterexample:
  "observations ops0 sys_single 10 =
     Returns (None, [(Some Open, None), (Some Open, Some 10), (Some Open, Some 10),
                     (Some Closed, Some 10), (None, Some 10), (None, None)])
   \<and> list_ex released_while_set
        [(Some Open, None), (Some Open, Some 10), (Some Open, Some 10),
         (Some Closed, Some 10), (None, Some 10), (None, None)]
   \<and> released_while_set (Some Closed, Some 10)
   \<and> list_ex cleared_while_unreleased
        [(Some Open, None), (Some Open, Some 10), (Some Open, Some 10),
         (Some Closed, Some 10), (None, Some 10), (None, None)]
   \<and> cleared_while_unreleased (Some Open, None)"
  by (simp add: observations_def Run_trace_def set_waitch_def set_unit_job_def waitDeps.simps
      requires_of_def execute_def close_waitch_def observe_def signal_def active_job_def
      sys_single_def ops0_def newJob_def released_while_set_def cleared_while_unreleased_def)

text \<open>
  Claim C8, amended. Whatever the other goroutines do, a returning \<^verbatim>\<open>Run\<close> either stops
  at the dependency check, returning \<^verbatim>\<open>ErrDepFail\<close> after it has installed the signal and
  set the reference, or makes its assignments in this order: signal installed, reference
  set, operation executed, signal released (channel closed), signal field reset to nil,
  reference cleared; and each assignment shows in the store right after it. So the
  signal is released before the reference is cleared, not after. When the other
  goroutines leave the job's signal and its unit's active-job reference alone, the stores
  after these assignments show, in order, the signal open with the reference as it was
  before the call, then open with the reference set (twice), closed with the reference
  set, nil with the reference set, nil with the reference cleared: a completed run
  passes through a store in which the signal is released and the reference is still set,
  and after the first assignment no store has the reference cleared with the signal
  unreleased.
\<close>

theorem Run_release_order:
  assumes "Run_env p env s pj = Returns (e, tr)"
  shows "((e = Some ErrDepFail \<and> map fst tr = [Install, SetRef])
          \<or> map fst tr = [Install, SetRef, Execute, Close, Reset, ClearRef])
         \<and> list_all (written pj) tr
         \<and> (quiet env pj \<longrightarrow>
              ((e = Some ErrDepFail
                  \<and> map (observe pj) (map snd tr) =
                      [(Some Open, active_job s pj), (Some Open, Some pj)])
               \<or> (map (observe pj) (map snd tr) =
                      [(Some Open, active_job s pj), (Some Open, Some pj), (Some Open, Some pj),
                       (Some Closed, Some pj), (None, Some pj), (None, None)]
                   \<and> list_ex released_while_set (map (observe pj) (map snd tr))))
              \<and> \<not> list_ex cleared_while_unreleased (tl (map (observe pj) (map snd tr))))"
proof -
  have "quiet env pj \<Longrightarrow>
          ((e = Some ErrDepFail
              \<and> map (observe pj) (map snd tr) =
                  [(Some Open, active_job s pj), (Some Open, Some pj)])
           \<or> (map (observe pj) (map snd tr) =
                  [(Some Open, active_job s pj), (Some Open, Some pj), (Some Open, Some pj),
                   (Some Closed, Some pj), (None, Some pj), (None, None)]
               \<and> list_ex released_while_set (map (observe pj) (map snd tr))))
          \<and> \<not> list_ex cleared_while_unreleased (tl (map (observe pj) (map snd tr)))"
    using Run_env_quiet [OF assms]
    by (auto simp: released_while_set_def cleared_while_unreleased_def)
  then show ?thesis using Run_env_order [OF assms] by blast
qed

lemma quiet_env_finish20: "quiet env_finish20 10"
  by (simp add: quiet_def env_finish20_def finish20_def observe_def signal_def active_job_def
      split: option.splits)

theorem Run_release_order_witness:
  "quiet env_finish20 10
   \<and> Wait (newJob start (Some 2)\<lparr>requiredBy := [10], waitch := Some Open\<rparr>) = Blocks
   \<and> (\<exists>tr. Run_env ops0 env_finish20 sys_waiting 10 = Returns (None, tr)
         \<and> map fst tr = [Install, SetRef, Execute, Close, Reset, ClearRef]
         \<and> list_all (written 10) tr
         \<and> map (observe 10) (map snd tr) =
             [(Some Open, None), (Some Open, Some 10), (Some Open, Some 10),
              (Some Closed, Some 10), (None, Some 10), (None, None)]
         \<and> list_ex released_while_set (map (observe 10) (map snd tr))
         \<and> \<not> list_ex cleared_while_unreleased (tl (map (observe 10) (map snd tr))))"
proof -
  have w: "Wait (newJob start (Some 2)\<lparr>requiredBy := [10], waitch := Some Open\<rparr>) = Blocks"
    by (simp add: Wait_def IsRunning_def newJob_def)
  have "\<exists>tr. Run_env ops0 env_finish20 sys_waiting 10 = Returns (None, tr)"
    by (simp add: Run_env_def set_waitch_def set_unit_job_def requires_of_def execute_def
        close_waitch_def Wait_def Success_def State_def IsRunning_def env_finish20_def
        finish20_def sys_waiting_def ops0_def newJob_def)
  then obtain tr where run: "Run_env ops0 env_finish20 sys_waiting 10 = Returns (None, tr)"
    by blast
  have a: "active_job sys_waiting 10 = None"
    by (simp add: active_job_def sys_waiting_def newJob_def)
  show ?thesis
    using Run_release_order [OF run] quiet_env_finish20 run w a by auto
qed

text \<open>
  Without that ownership the last part does not hold: with a second job on the unit that
  starts while the first is between closing its channel and resetting the field, the
  first job's late clearing of the reference leaves the second job with its signal open
  and the unit referring to no job.
\<close>

lemma Run_env_shared_unit:
  "\<not> quiet env_begin11 10
   \<and> (case Run_env ops0 env_begin11 sys_shared 10 of
        Returns (e, tr) \<Rightarrow>
          map fst tr = [Install, SetRef, Execute, Close, Reset, ClearRef]
          \<and> map (observe 11) (map snd tr) =
              [(None, None), (None, Some 10), (None, Some 10), (None, Some 10),
               (Some Open, Some 11), (Some Open, None)]
      | _ \<Rightarrow> False)"
proof -
  have "observe 10 (env_begin11 5 sys_shared) \<noteq> observe 10 sys_shared"
    by (simp add: env_begin11_def begin11_def set_waitch_def set_unit_job_def observe_def
        signal_def active_job_def sys_shared_def newJob_def)
  then have "\<not> quiet env_begin11 10"
    unfolding quiet_def by blast
  moreover have "(case Run_env ops0 env_begin11 sys_shared 10 of
        Returns (e, tr) \<Rightarrow>
          map fst tr = [Install, SetRef, Execute, Close, Reset, ClearRef]
          \<and> map (observe 11) (map snd tr) =
              [(None, None), (None, Some 10), (None, Some 10), (None, Some 10),
               (Some Open, Some 11), (Some Open, None)]
      | _ \<Rightarrow> False)"
    by (simp add: Run_env_def set_waitch_def set_unit_job_def requires_of_def execute_def
        close_waitch_def env_begin11_def begin11_def observe_def signal_def active_job_def
        sys_shared_def ops0_def newJob_def)
  ultimately show ?thesis by blast
qed

text \<open>
  A job whose only requirement is another job that has failed: \<^verbatim>\<open>Run\<close> returns
  \<^verbatim>\<open>ErrDepFail\<close> from line 141, having installed the signal and set the active-job
  reference and nothing else.
\<close>

lemma Run_sole_dependency_failed:
  assumes "jobs s pj = Some j" and "requires j = [d]" and "d \<noteq> pj"
    and "jobs s d = Some dep" and "State dep = failed"
    and "unit j = Some pu" and "units s pu = Some u"
  shows "Run p s pj =
           Returns (Some ErrDepFail,
                    s\<lparr> jobs := (jobs s)(pj \<mapsto> j\<lparr>waitch := Some Open\<rparr>),
                       units := (units s)(pu \<mapsto> u\<lparr>job := Some pj\<rparr>) \<rparr>)"
proof -
  have dep: "Wait dep = Returns True" "\<not> Success dep"
    using assms(5) by (auto simp: State_def Success_def Wait_def split: if_splits)
  show ?thesis
    using assms(1-4,6,7) dep
    by (simp add: Run_def Run_trace_def set_waitch_def set_unit_job_def requires_of_def)
qed

lemma Run_sole_dependency_failed_State:
  assumes "jobs s pj = Some j" and "requires j = [d]" and "d \<noteq> pj"
    and "jobs s d = Some dep" and "State dep = failed"
    and "unit j = Some pu" and "units s pu = Some u"
    and "Run p s pj = Returns (e, s')"
  shows "e = Some ErrDepFail \<and> State_of s' pj = Some running"
  using assms(8) Run_sole_dependency_failed [OF assms(1-7), of p]
  by (auto simp: State_of_def State_def IsRunning_def)

text \<open>
  Claim C6, on the store in which job 10 requires job 20 only and job 20 has failed. The
  run of job 10 returns \<^verbatim>\<open>ErrDepFail\<close> and calls no operation of the unit (its log stays
  empty, and the job is not marked executed), as the claim says. But the return at line
  141 comes before the channel is closed and reset, so the state of job 10 afterwards is
  running, not failed.
\<close>

theorem Run_dependency_failed_stays_running:
  "State_of sys_depfail 20 = Some failed
   \<and> requires_of sys_depfail 10 = [20]
   \<and> (case Run ops0 sys_depfail 10 of
        Returns (e, s') \<Rightarrow>
          e = Some ErrDepFail
          \<and> map_option body (units s' 1) = Some []
          \<and> map_option executed (jobs s' 10) = Some False
          \<and> State_of s' 10 = Some running
          \<and> State_of s' 10 \<noteq> Some failed
          \<and> signal s' 10 = Some Open
      | _ \<Rightarrow> False)"
  by (simp add: Run_def Run_trace_def set_waitch_def set_unit_job_def requires_of_def
      State_of_def State_def IsRunning_def Success_def Wait_def signal_def
      sys_depfail_def job_dependent_def job_dep_failed_def newJob_def)

section \<open>Properties of the service unit\<close>

lemma check_definition_length: "length (check_definition def) \<le> 1"
  by (simp add: check_definition_def)

lemma check_definition_nonempty:
  "check_definition def \<noteq> [] \<longleftrightarrow>
     ExecStart (Service def) = [] \<or> \<not> Supported (Type (Service def))"
  by (simp add: check_definition_def)

lemma Supported_forking: "\<not> Supported ''forking''"
  by (simp add: Supported_def supported_def)

lemma Supported_simple: "Supported ''simple''"
  by (simp add: Supported_def supported_def)

text \<open>
  Claim C4, on a definition file that declares the unsupported type forking and no
  \<^verbatim>\<open>ExecStart\<close>. The switch of \<^verbatim>\<open>Define\<close> takes its first matching case only, so the
  returned \<^verbatim>\<open>MultiError\<close> holds the "ExecStart not set" entry alone; the entry for the
  unsupported type is missing.
\<close>

theorem Define_reports_first_error_only:
  "(case parse_pair (''forking'', []) (Definition0 ()) of
      Inl e \<Rightarrow> False
    | Inr def \<Rightarrow> ExecStart (Service def) = [] \<and> \<not> Supported (Type (Service def)))
   \<and> Define parse_pair () sv_fresh (''forking'', []) =
       Returns (Some (MultiError [ParseErr ''ExecStart'' ErrNotSet]), sv_fresh)
   \<and> ParseErr ''Type'' (ParseErr ''forking'' ErrNotSupported)
       \<notin> set [ParseErr ''ExecStart'' ErrNotSet]"
  by (simp add: Define_def parse_pair_def Definition0_def check_definition_def Supported_forking)

text \<open>
  A process that has terminated: what \<^verbatim>\<open>Sub\<close> returns depends on how it ended. After an
  exit, with any code, the branch of line 135 is taken; only the end by a signal
  reaches the default branch.
\<close>

lemma Sub_terminated:
  assumes "Cmd sv = Some cmd" and "Process cmd = Some pid" and "ProcessState cmd = Some ps"
  shows "Sub sv =
           (case ps of
              ExitedWith c \<Rightarrow>
                Returns (if RemainAfterExit (Service (Definition sv)) then exited else dead)
            | KilledBy sg \<Rightarrow> Returns failed_sub)"
  using assms by (simp add: Sub_def split: ProcessState.splits)

text \<open>
  Claim C5, on a defined unit whose process has been started and has left with the exit
  code 1. The process has terminated without success, yet \<^verbatim>\<open>Sub\<close> returns dead (and
  exited when \<^verbatim>\<open>RemainAfterExit\<close> is set), not failed: the case of line 135 holds as
  soon as \<^verbatim>\<open>Exited()\<close> does, and that is so for every exit code.
\<close>

theorem Sub_nonzero_exit_not_failed:
  "Define parse_pair () sv_fresh (''simple'', ''/bin/false'') =
     Returns (None, \<lparr> Definition = def_false, Cmd = Some (exec_Command ''/bin/false'' []) \<rparr>)
   \<and> map_option Process (Cmd sv_exit1) = Some (Some 4242)
   \<and> map_option ProcessState (Cmd sv_exit1) = Some (Some (ExitedWith 1))
   \<and> \<not> Success_proc (ExitedWith 1)
   \<and> Sub sv_exit1 = Returns dead
   \<and> Sub sv_exit1 \<noteq> Returns failed_sub
   \<and> Sub (sv_exit1\<lparr>Definition := def_false\<lparr>Service := (Service def_false)\<lparr>RemainAfterExit := True\<rparr>\<rparr>\<rparr>)
       = Returns exited"
  by (simp add: Define_def parse_pair_def Definition0_def check_definition_def Supported_simple
      Fields_def isSpace_def exec_Command_def sv_fresh_def def_false_def sv_exit1_def Sub_def)

text \<open>
  Claim C7. \<^verbatim>\<open>Active\<close> sends the sub state that \<^verbatim>\<open>Sub\<close> returns through the table of
  the activation state machine: a sub state in the table gives its activation, and any
  other sub state gives the panic "Unknown service sub state", never a value.
\<close>

theorem Active_table:
  "activation s =
     (case map_of activation_table s of
        Some a \<Rightarrow> Returns a
      | None \<Rightarrow> Panics (PanicString ''Unknown service sub state''))
   \<and> Active sv =
       (case Sub sv of
          Panics x \<Rightarrow> Panics x
        | Blocks \<Rightarrow> Blocks
        | Returns s \<Rightarrow>
            (case map_of activation_table s of
               Some a \<Rightarrow> Returns a
             | None \<Rightarrow> Panics (PanicString ''Unknown service sub state'')))"
proof -
  have tab: "activation s =
     (case map_of activation_table s of
        Some a \<Rightarrow> Returns a
      | None \<Rightarrow> Panics (PanicString ''Unknown service sub state''))" for s
    by (simp add: activation_def activation_table_def)
  show ?thesis
    by (simp add: Active_def tab split: outcome.splits)
qed

theorem Active_table_witness:
  "Active sv_exit1 = Returns unit_Inactive
   \<and> activation ''stopSigabrt'' = Returns unit_Deactivating
   \<and> activation ''mounted'' = Panics (PanicString ''Unknown service sub state'')"
  using Active_table [of "''stopSigabrt''" sv_exit1] Active_table [of "''mounted''" sv_exit1]
  by (simp add: activation_table_def Sub_def sv_exit1_def def_false_def)

text \<open>
  Claim C9. When the parsed definition has an empty \<^verbatim>\<open>ExecStart\<close> or an unsupported
  type, \<^verbatim>\<open>Define\<close> returns the \<^verbatim>\<open>MultiError\<close> of its check and the unit is as it was
  before the call: neither its definition nor its command has been assigned.
\<close>

theorem Define_invalid_unchanged:
  assumes "ParseDefinition r (Definition0 zero) = Inr def"
    and "ExecStart (Service def) = [] \<or> \<not> Supported (Type (Service def))"
  shows "Define ParseDefinition zero sv r = Returns (Some (MultiError (check_definition def)), sv)
         \<and> check_definition def \<noteq> []"
proof -
  have "check_definition def \<noteq> []"
    using assms(2) by (simp add: check_definition_nonempty)
  then show ?thesis using assms(1) by (simp add: Define_def)
qed

theorem Define_invalid_unchanged_witness:
  "Define parse_pair () sv_exit1 (''forking'', ''/bin/true'') =
     Returns (Some (MultiError [ParseErr ''Type'' (ParseErr ''forking'' ErrNotSupported)]), sv_exit1)
   \<and> Define parse_pair () sv_exit1 (''simple'', []) =
       Returns (Some (MultiError [ParseErr ''ExecStart'' ErrNotSet]), sv_exit1)"
proof -
  let ?d1 = "(Definition0 ())\<lparr>Service := (Service (Definition0 ()))\<lparr>Type := ''forking'', ExecStart := ''/bin/true''\<rparr>\<rparr>"
  let ?d2 = "(Definition0 ())\<lparr>Service := (Service (Definition0 ()))\<lparr>Type := ''simple'', ExecStart := []\<rparr>\<rparr>"
  have p1: "parse_pair (''forking'', ''/bin/true'') (Definition0 ()) = Inr ?d1"
    by (simp add: parse_pair_def)
  have p2: "parse_pair (''simple'', []) (Definition0 ()) = Inr ?d2"
    by (simp add: parse_pair_def)
  have b1: "ExecStart (Service ?d1) = [] \<or> \<not> Supported (Type (Service ?d1))"
    by (simp add: Definition0_def Supported_forking)
  have b2: "ExecStart (Service ?d2) = [] \<or> \<not> Supported (Type (Service ?d2))"
    by (simp add: Definition0_def)
  show ?thesis
    using Define_invalid_unchanged [of parse_pair "(''forking'', ''/bin/true'')" "()" ?d1 sv_exit1, OF p1 b1]
          Define_invalid_unchanged [of parse_pair "(''simple'', [])" "()" ?d2 sv_exit1, OF p2 b2]
    by (simp add: check_definition_def Definition0_def Supported_forking)
qed

end
